theory Spec2Isabelle
  imports Main
begin

section \<open>JavaScript values, errors and results\<close>

text \<open>
  The facade \<open>Logtopus\<close> is a JavaScript class. Values the facade only passes through
  (extra log arguments, backend configuration) are JSON-like values; numbers are
  integers here, since no arithmetic is done on them.
\<close>

datatype jsval =
    Undefined
  | Null
  | Bool bool
  | Num int
  | Str string
  | Obj "(string \<times> jsval) list"

datatype js_error =
    Error string
  | TypeError string
  | ReferenceError string
  | Thrown jsval

text \<open>A call either returns a value or throws; \<open>This\<close> is the chainable \<open>return this\<close>,
  \<open>Void\<close> the \<open>undefined\<close> of a function body that ends without \<open>return\<close>.\<close>

datatype 'a outcome = Returns 'a | Throws js_error

datatype chain = This | Void

fun js_truthy :: "jsval \<Rightarrow> bool" where
  "js_truthy Undefined = False"
| "js_truthy Null = False"
| "js_truthy (Bool b) = b"
| "js_truthy (Num n) = (n \<noteq> 0)"
| "js_truthy (Str s) = (s \<noteq> [])"
| "js_truthy (Obj ps) = True"

text \<open>The own property names of \<open>Object.prototype\<close> (as Node.js lists them): a property read
  \<open>obj[k]\<close> on an object literal finds them when \<open>obj\<close> has no own property \<open>k\<close>.\<close>

definition object_prototype_keys :: "string list" where
  "object_prototype_keys =
     [''constructor'', ''__defineGetter__'', ''__defineSetter__'', ''hasOwnProperty'',
      ''__lookupGetter__'', ''__lookupSetter__'', ''isPrototypeOf'', ''propertyIsEnumerable'',
      ''toString'', ''valueOf'', ''__proto__'', ''toLocaleString'']"

text \<open>The value of \<open>obj[k]\<close> for an object literal \<open>obj\<close> of JSON-like values: an own
  property, else the built-in inherited under that name, else \<open>undefined\<close>.\<close>

datatype config_value = Config jsval | ConfigInherited string

definition js_get :: "(string \<times> jsval) list \<Rightarrow> string \<Rightarrow> config_value" where
  "js_get obj k =
     (case map_of obj k of
        Some v \<Rightarrow> Config v
      | None \<Rightarrow> if k \<in> set object_prototype_keys then ConfigInherited k
                else Config Undefined)"

section \<open>The level table\<close>

text \<open>
  \<open>this.__definedLogLevels = { error: 1, warn: 2, sys: 3, req: 4, res: 5, info: 6, debug: 7 }\<close>,
  in the order of the literal (the order \<open>for ... in\<close> enumerates).
\<close>

definition definedLogLevels :: "(string \<times> int) list" where
  "definedLogLevels =
     [(''error'', 1), (''warn'', 2), (''sys'', 3), (''req'', 4),
      (''res'', 5), (''info'', 6), (''debug'', 7)]"

text \<open>
  What \<open>this.__definedLogLevels[k]\<close> and \<open>this.__logLevel\<close> can hold: a number, or a
  built-in inherited from \<open>Object.prototype\<close>. A missing property is \<open>None\<close>
  (\<open>undefined\<close>).
\<close>

datatype level_value = Rank int | Inherited string

definition definedLogLevels_get :: "string \<Rightarrow> level_value option" where
  "definedLogLevels_get k =
     (case map_of definedLogLevels k of
        Some r \<Rightarrow> Some (Rank r)
      | None \<Rightarrow> if k \<in> set object_prototype_keys then Some (Inherited k) else None)"

fun level_truthy :: "level_value option \<Rightarrow> bool" where
  "level_truthy None = False"
| "level_truthy (Some (Rank r)) = (r \<noteq> 0)"
| "level_truthy (Some (Inherited k)) = True"

text \<open>
  The string an inherited built-in converts to in a comparison (Node.js): the functions
  print as native code under their own name (\<open>constructor\<close> is the function \<open>Object\<close>), and
  \<open>__proto__\<close> reads the object \<open>Object.prototype\<close>.
\<close>

definition builtin_text :: "string \<Rightarrow> string" where
  "builtin_text k =
     (if k = ''__proto__'' then ''[object Object]''
      else if k = ''constructor'' then ''function Object() { [native code] }''
      else ''function '' @ k @ ''() { [native code] }'')"

text \<open>\<open>a > b\<close> on two strings: the order of the first code unit that differs; a proper
  prefix is the smaller string.\<close>

fun string_gt :: "string \<Rightarrow> string \<Rightarrow> bool" where
  "string_gt [] ys = False"
| "string_gt (x # xs) [] = True"
| "string_gt (x # xs) (y # ys) =
     (if x = y then string_gt xs ys else (of_char y :: nat) < of_char x)"

text \<open>\<open>a > b\<close>: on two numbers the numeric order; two built-ins are compared as the strings
  they convert to; a number against a built-in compares with \<open>NaN\<close>, which is false.\<close>

fun level_gt :: "level_value \<Rightarrow> level_value \<Rightarrow> bool" where
  "level_gt (Rank a) (Rank b) = (a > b)"
| "level_gt (Inherited a) (Inherited b) = string_gt (builtin_text a) (builtin_text b)"
| "level_gt (Rank a) (Inherited b) = False"
| "level_gt (Inherited a) (Rank b) = False"

section \<open>Configuration and environment\<close>

record config =
  conf_level :: "int option"
  conf_debugMode :: "bool option"
  conf_logger :: "(string \<times> jsval) list option"

record environment =
  NODE_ENV :: "string option"
  LOGTOPUS_DEBUG :: "string option"

definition empty_config :: config where
  "empty_config = \<lparr>conf_level = None, conf_debugMode = None, conf_logger = None\<rparr>"

definition default_logger_config :: "(string \<times> jsval) list" where
  "default_logger_config =
     [(''console'', Obj [(''colors'', Bool True), (''template'', Str ''default''),
                         (''timestamp'', Bool False)]),
      (''file'', Obj [(''logfile'', Str ''./logs/app.log'')])]"

text \<open>\<open>config(conf)\<close> for a given \<open>conf\<close> object: substitutes the default logger section.\<close>

definition config_method :: "config \<Rightarrow> config" where
  "config_method c =
     (case conf_logger c of
        None \<Rightarrow> c\<lparr>conf_logger := Some default_logger_config\<rparr>
      | Some l \<Rightarrow> c)"

definition environment_default :: "string option \<Rightarrow> int" where
  "environment_default node_env =
     (if node_env = Some ''production'' then 3
      else if node_env = Some ''staging'' then 5
      else if node_env = Some ''qa'' then 5
      else if node_env = Some ''test'' then 1
      else 6)"

section \<open>Events, backends and the facade's state\<close>

record event =
  ev_type :: string
  ev_msg :: string
  ev_cmsg :: string
  ev_data :: "jsval list"
  ev_time :: int
  ev_uptime :: int

text \<open>
  A promise is read at one moment: fulfilled, rejected, or not settled yet.
  A backend's \<open>flush()\<close> throws synchronously or returns a promise (any other return
  value counts as a fulfilled one for \<open>Promise.all\<close>).
\<close>

datatype promise = Fulfilled | Rejected | Pending

datatype flush_behaviour = FlushThrows js_error | FlushReturns promise

text \<open>
  A backend instance is opaque to the facade: \<open>log_fn\<close> tells whether \<open>log(event)\<close>
  throws, \<open>flush_fn\<close> is \<open>None\<close> when \<open>typeof logger.flush\<close> is not \<open>'function'\<close>.
\<close>

record backend =
  class_name :: string
  log_fn :: "event \<Rightarrow> js_error option"
  flush_fn :: "flush_behaviour option"

text \<open>\<open>new LoggerClass(config)\<close> throws or yields an instance.\<close>

type_synonym logger_class = "config_value \<Rightarrow> js_error + backend"

datatype diag =
    LoadNotice string
  | LoadFailed string js_error
  | WriteNotice string string

text \<open>What a call does to the outside world, in order: console output of the diagnostics
  mode, a backend constructed, \<open>log\<close> or \<open>flush\<close> invoked on the backend registered under a
  name.\<close>

datatype effect =
    Console diag
  | Construct string config_value
  | LogCall string event
  | FlushCall string

record logtopus =
  conf :: config
  logLevel :: level_value
  debugMode :: bool
  environmentDefault :: int
  logger :: "(string \<times> backend) list"

subsection \<open>The registry: a JavaScript \<open>Map\<close>, in insertion order\<close>

definition map_has :: "(string \<times> 'a) list \<Rightarrow> string \<Rightarrow> bool" where
  "map_has m k = (k \<in> fst ` set m)"

fun map_set :: "(string \<times> 'a) list \<Rightarrow> string \<Rightarrow> 'a \<Rightarrow> (string \<times> 'a) list" where
  "map_set [] k v = [(k, v)]"
| "map_set ((k', v') # m) k v = (if k' = k then (k, v) # m else (k', v') # map_set m k v)"

definition map_delete :: "(string \<times> 'a) list \<Rightarrow> string \<Rightarrow> (string \<times> 'a) list" where
  "map_delete m k = filter (\<lambda>(k', v). k' \<noteq> k) m"

section \<open>Level operations\<close>

text \<open>\<open>setLevel(level)\<close> with a string argument, or without argument (\<open>None\<close>); the empty
  string is falsy, so \<open>if (level)\<close> sends it to the \<open>else\<close> branch. The state after a
  throw is returned too.\<close>

definition setLevel :: "string option \<Rightarrow> logtopus \<Rightarrow> chain outcome \<times> logtopus" where
  "setLevel level s =
     (case level of
        Some l \<Rightarrow>
          if l \<noteq> [] then
            (case definedLogLevels_get l of
               None \<Rightarrow> (Throws (Error ''Invalid log level argument!''), s)
             | Some newLevel \<Rightarrow>
                 if \<not> level_truthy (Some newLevel)
                 then (Throws (Error ''Invalid log level argument!''), s)
                 else (Returns This, s\<lparr>logLevel := newLevel\<rparr>))
          else (Returns This, s\<lparr>logLevel := Rank (environmentDefault s)\<rparr>)
      | None \<Rightarrow> (Returns This, s\<lparr>logLevel := Rank (environmentDefault s)\<rparr>))"

text \<open>\<open>getLevel()\<close>: the first key of the table whose value \<open>===\<close> the threshold, else
  \<open>undefined\<close>.\<close>

definition getLevel :: "logtopus \<Rightarrow> string option" where
  "getLevel s =
     map_option fst (find (\<lambda>(key, r). Rank r = logLevel s) definedLogLevels)"

section \<open>Rendering the message\<close>

text \<open>
  \<open>msg.replace(/\u001b\[(\d+;)*\d*m/g, '')\<close>. After \<open>ESC [\<close> the pattern reads groups of
  one or more digits closed by \<open>;\<close>, then digits, then \<open>m\<close>: \<open>sgr_params\<close> returns the rest
  of the string behind the \<open>m\<close>, its flag telling whether the current group has a digit
  already. The \<open>m\<close> cannot occur inside the parameters, so a match at a position is unique.
\<close>

definition is_digit :: "char \<Rightarrow> bool" where
  "is_digit c = (c \<in> set ''0123456789'')"

fun sgr_params :: "bool \<Rightarrow> string \<Rightarrow> string option" where
  "sgr_params in_digits [] = None"
| "sgr_params in_digits (c # cs) =
     (if c = CHR ''m'' then Some cs
      else if is_digit c then sgr_params True cs
      else if c = CHR '';'' \<and> in_digits then sgr_params False cs
      else None)"

fun match_escape :: "string \<Rightarrow> string option" where
  "match_escape (e # b # cs) =
     (if e = CHR 0x1B \<and> b = CHR ''['' then sgr_params False cs else None)"
| "match_escape cs = None"

lemma sgr_params_shorter: "sgr_params d cs = Some r \<Longrightarrow> length r < length cs"
  by (induction cs arbitrary: d) (auto split: if_splits intro: less_SucI)

lemma match_escape_shorter: "match_escape cs = Some r \<Longrightarrow> length r < length cs"
  by (cases cs rule: match_escape.cases)
     (auto split: if_splits dest!: sgr_params_shorter)

text \<open>The global replace scans from the left; behind a match it goes on with the rest.\<close>

function strip_escapes :: "string \<Rightarrow> string" where
  "strip_escapes [] = []"
| "strip_escapes (c # cs) =
     (case match_escape (c # cs) of
        Some r \<Rightarrow> strip_escapes r
      | None \<Rightarrow> c # strip_escapes cs)"
  by pat_completeness auto
termination
  by (relation "measure length") (auto dest: match_escape_shorter)

text \<open>Whether the pattern matches somewhere in the string.\<close>

fun has_escape :: "string \<Rightarrow> bool" where
  "has_escape [] = False"
| "has_escape (c # cs) =
     (case match_escape (c # cs) of Some r \<Rightarrow> True | None \<Rightarrow> has_escape cs)"





text \<open>
  A message is a JSON-like value (a string, by the documentation of \<open>writeLog\<close>) or an
  object with a \<open>colorfy\<close> method: \<open>cf_text\<close> is its \<open>text\<close> buffer, and \<open>cf_render b t\<close> is
  what \<open>colorfy(b)\<close> returns on the buffer \<open>t\<close>, with the buffer it leaves behind.
\<close>

record colorfy =
  cf_text :: "jsval list"
  cf_render :: "bool \<Rightarrow> jsval list \<Rightarrow> string \<times> jsval list"

datatype message = Val jsval | Colorfy colorfy

text \<open>\<open>if (!msg) { msg = 'No message' }\<close>\<close>

fun default_message :: "message \<Rightarrow> message" where
  "default_message (Val v) = (if js_truthy v then Val v else Val (Str ''No message''))"
| "default_message (Colorfy c) = Colorfy c"

text \<open>The pair \<open>(msgPlain, msgColorfied)\<close>. The \<open>colorfy\<close> branch renders twice from the
  same snapshot of \<open>text\<close>; a truthy value that is no string has no \<open>replace\<close> method.\<close>

fun render :: "message \<Rightarrow> js_error + string \<times> string" where
  "render (Colorfy c) =
     (let snapshot = cf_text c;
          msgPlain = fst (cf_render c False (cf_text c));
          msgColorfied = fst (cf_render c True snapshot)
      in Inr (msgPlain, msgColorfied))"
| "render (Val (Str m)) = Inr (strip_escapes m, m)"
| "render (Val v) = Inl (TypeError ''msg.replace is not a function'')"

section \<open>Dispatch\<close>

text \<open>The callback of \<open>this.__logger.forEach\<close> in \<open>writeLog\<close>: nothing catches what
  \<open>logger.log\<close> throws. The timer of \<open>logUtils\<close> around the call in diagnostics mode
  shows only in the console line; it is taken not to throw.\<close>

fun forEach_log :: "bool \<Rightarrow> event \<Rightarrow> (string \<times> backend) list \<Rightarrow> chain outcome \<times> effect list" where
  "forEach_log dbg ev [] = (Returns Void, [])"
| "forEach_log dbg ev ((name, l) # rest) =
     (case log_fn l ev of
        Some e \<Rightarrow> (Throws e, [LogCall name ev])
      | None \<Rightarrow>
          (case forEach_log dbg ev rest of
             (r, effs) \<Rightarrow>
               (r, LogCall name ev
                   # (if dbg then [Console (WriteNotice (ev_type ev) (class_name l))] else [])
                   @ effs)))"

text \<open>\<open>writeLog(type, msg, ...data)\<close>; \<open>now\<close> and \<open>up\<close> are what \<open>new Date()\<close> and
  \<open>process.uptime()\<close> read at the call.\<close>

definition writeLog ::
  "string \<Rightarrow> message \<Rightarrow> jsval list \<Rightarrow> int \<Rightarrow> int \<Rightarrow> logtopus \<Rightarrow> chain outcome \<times> effect list" where
  "writeLog type m args now up s =
     (let curLevel = definedLogLevels_get type in
      if level_truthy curLevel \<and> (case curLevel of Some c \<Rightarrow> level_gt c (logLevel s) | None \<Rightarrow> False)
      then (Returns This, [])
      else
        (case render (default_message m) of
           Inl e \<Rightarrow> (Throws e, [])
         | Inr (msgPlain, msgColorfied) \<Rightarrow>
             forEach_log (debugMode s)
               \<lparr>ev_type = type, ev_msg = msgPlain, ev_cmsg = msgColorfied,
                ev_data = args, ev_time = now, ev_uptime = up\<rparr>
               (logger s)))"

text \<open>The convenience methods: \<open>args.unshift(name); this.writeLog.apply(this, args);
  return this\<close>.\<close>

definition log_as ::
  "string \<Rightarrow> message \<Rightarrow> jsval list \<Rightarrow> int \<Rightarrow> int \<Rightarrow> logtopus \<Rightarrow> chain outcome \<times> effect list" where
  "log_as type m args now up s =
     (case writeLog type m args now up s of
        (Throws e, effs) \<Rightarrow> (Throws e, effs)
      | (Returns r, effs) \<Rightarrow> (Returns This, effs))"

definition debug where "debug = log_as ''debug''"
definition info where "info = log_as ''info''"
definition res where "res = log_as ''res''"
definition req where "req = log_as ''req''"
definition sys where "sys = log_as ''sys''"
definition warn where "warn = log_as ''warn''"
definition error where "error = log_as ''error''"

section \<open>The registry operations\<close>

text \<open>\<open>addLogger(name, LoggerClass)\<close>. In the duplicate branch the template literal of the
  diagnostics line reads \<open>err\<close>, which is not declared in that scope.\<close>

definition addLogger ::
  "string \<Rightarrow> logger_class \<Rightarrow> logtopus \<Rightarrow> chain outcome \<times> logtopus \<times> effect list" where
  "addLogger name LoggerClass s =
     (if map_has (logger s) name then
        (if debugMode s then (Throws (ReferenceError ''err is not defined''), s, [])
         else (Returns This, s, []))
      else
        (case conf_logger (conf s) of
           None \<Rightarrow> (Throws (TypeError ''Cannot read properties of undefined''), s, [])
         | Some lc \<Rightarrow>
             (case LoggerClass (js_get lc name) of
                Inl e \<Rightarrow> (Throws e, s, [Construct name (js_get lc name)])
              | Inr loggerInstance \<Rightarrow>
                  (Returns This,
                   s\<lparr>logger := map_set (logger s) name loggerInstance\<rparr>,
                   [Construct name (js_get lc name)]))))"

definition removeLogger :: "string \<Rightarrow> logtopus \<Rightarrow> chain outcome \<times> logtopus" where
  "removeLogger name s = (Returns This, s\<lparr>logger := map_delete (logger s) name\<rparr>)"

section \<open>Loading the configured backends, construction\<close>

definition upper_to_lower :: "(char \<times> char) list" where
  "upper_to_lower = zip ''ABCDEFGHIJKLMNOPQRSTUVWXYZ'' ''abcdefghijklmnopqrstuvwxyz''"

text \<open>\<open>loggerName.replace(/[A-Z]/g, match => '-' + match.toLowerCase())\<close>\<close>

definition moduleName :: "string \<Rightarrow> string" where
  "moduleName loggerName =
     concat (map (\<lambda>c. case map_of upper_to_lower c of
                         Some l \<Rightarrow> [CHR ''-'', l]
                       | None \<Rightarrow> [c]) loggerName)"

text \<open>
  \<open>Object.keys(obj)\<close> of an object literal given as its properties in the order written:
  the array indices (canonical decimal numerals up to \<open>2^32 - 2\<close>) come first, in ascending
  order, then the other names in the order written.
\<close>

definition decimal :: "string \<Rightarrow> int" where
  "decimal k = foldl (\<lambda>n c. 10 * n + (of_char c - 48)) 0 k"

definition is_array_index :: "string \<Rightarrow> bool" where
  "is_array_index k =
     (k \<noteq> [] \<and> list_all is_digit k \<and> (k = ''0'' \<or> take 1 k \<noteq> ''0'')
      \<and> decimal k \<le> 4294967294)"

definition object_keys :: "(string \<times> 'a) list \<Rightarrow> string list" where
  "object_keys obj =
     sort_key decimal (filter is_array_index (map fst obj))
     @ filter (\<lambda>k. \<not> is_array_index k) (map fst obj)"

text \<open>The body of the loop of \<open>loadLogger\<close>; \<open>superimport\<close> is the module resolver, which
  throws or returns a backend class. The \<open>catch\<close> swallows every error of the \<open>try\<close> block.\<close>

fun loadLogger_loop ::
  "(string \<Rightarrow> js_error + logger_class) \<Rightarrow> string list \<Rightarrow> logtopus \<Rightarrow> logtopus \<times> effect list" where
  "loadLogger_loop superimport [] s = (s, [])"
| "loadLogger_loop superimport (loggerName # names) s =
     (let notice = (if debugMode s then [Console (LoadNotice loggerName)] else []);
          caught = (\<lambda>e. if debugMode s then [Console (LoadFailed loggerName e)] else []);
          (s', effs) =
            (case superimport (''logtopus-'' @ moduleName loggerName @ ''-logger'') of
               Inl e \<Rightarrow> (s, caught e)
             | Inr LoggerClass \<Rightarrow>
                 (case addLogger loggerName LoggerClass s of
                    (Throws e, s1, effs1) \<Rightarrow> (s1, effs1 @ caught e)
                  | (Returns r, s1, effs1) \<Rightarrow> (s1, effs1)));
          (s'', effs') = loadLogger_loop superimport names s'
      in (s'', notice @ effs @ effs'))"

definition loadLogger ::
  "(string \<Rightarrow> js_error + logger_class) \<Rightarrow> logtopus \<Rightarrow> chain outcome \<times> logtopus \<times> effect list" where
  "loadLogger superimport s =
     (case conf_logger (conf s) of
        None \<Rightarrow> (Throws (TypeError ''Cannot convert undefined or null to object''), s, [])
      | Some lc \<Rightarrow>
          (case loadLogger_loop superimport (object_keys lc) s of
             (s', effs) \<Rightarrow> (Returns Void, s', effs)))"

text \<open>\<open>new Logtopus(conf)\<close> under the process environment \<open>env\<close>; \<open>None\<close> is a call without
  \<open>conf\<close>.\<close>

definition constructor ::
  "environment \<Rightarrow> (string \<Rightarrow> js_error + logger_class) \<Rightarrow> config option
     \<Rightarrow> logtopus outcome \<times> effect list" where
  "constructor env superimport c =
     (let c1 = config_method (case c of None \<Rightarrow> empty_config | Some c0 \<Rightarrow> c0);
          s = \<lparr>conf = c1,
               logLevel = (case conf_level c1 of
                             Some n \<Rightarrow> if n \<noteq> 0 then Rank n else Rank 3
                           | None \<Rightarrow> Rank 3),
               debugMode = (case conf_debugMode c1 of
                              Some True \<Rightarrow> True
                            | _ \<Rightarrow> (case LOGTOPUS_DEBUG env of Some v \<Rightarrow> v \<noteq> [] | None \<Rightarrow> False)),
               environmentDefault = environment_default (NODE_ENV env),
               logger = []\<rparr>
      in case loadLogger superimport s of
           (Throws e, s', effs) \<Rightarrow> (Throws e, effs)
         | (Returns r, s', effs) \<Rightarrow> (Returns s', effs))"

section \<open>Flush\<close>

text \<open>The loop of \<open>flush\<close>: the promises pushed to \<open>flushArr\<close>, unless a \<open>flush()\<close> throws.\<close>

fun forEach_flush :: "(string \<times> backend) list \<Rightarrow> (js_error + promise list) \<times> effect list" where
  "forEach_flush [] = (Inr [], [])"
| "forEach_flush ((name, l) # rest) =
     (case flush_fn l of
        None \<Rightarrow> forEach_flush rest
      | Some (FlushThrows e) \<Rightarrow> (Inl e, [FlushCall name])
      | Some (FlushReturns p) \<Rightarrow>
          (case forEach_flush rest of
             (Inl e, effs) \<Rightarrow> (Inl e, FlushCall name # effs)
           | (Inr flushArr, effs) \<Rightarrow> (Inr (p # flushArr), FlushCall name # effs)))"

text \<open>\<open>Promise.all\<close>, read at the same moment as its inputs: rejected as soon as one input
  is rejected, fulfilled once all are fulfilled.\<close>

definition Promise_all :: "promise list \<Rightarrow> promise" where
  "Promise_all ps =
     (if Rejected \<in> set ps then Rejected
      else if Pending \<in> set ps then Pending
      else Fulfilled)"

definition flush :: "logtopus \<Rightarrow> promise outcome \<times> effect list" where
  "flush s =
     (case forEach_flush (logger s) of
        (Inl e, effs) \<Rightarrow> (Throws e, effs)
      | (Inr flushArr, effs) \<Rightarrow> (Returns (Promise_all flushArr), effs))"

section \<open>Observing a run\<close>

text \<open>The \<open>log\<close> invocations among the effects of a call, as (registry name, event) in
  order, and the events one backend has recorded.\<close>

fun log_calls :: "effect list \<Rightarrow> (string \<times> event) list" where
  "log_calls [] = []"
| "log_calls (LogCall n ev # effs) = (n, ev) # log_calls effs"
| "log_calls (eff # effs) = log_calls effs"






text \<open>The registered names with a \<open>flush\<close> method, and the promises their \<open>flush()\<close>
  return.\<close>

definition flush_capable :: "(string \<times> backend) list \<Rightarrow> string list" where
  "flush_capable reg = map fst (filter (\<lambda>(n, l). flush_fn l \<noteq> None) reg)"

fun flush_promises :: "(string \<times> backend) list \<Rightarrow> promise list" where
  "flush_promises [] = []"
| "flush_promises ((n, l) # reg) =
     (case flush_fn l of
        Some (FlushReturns p) \<Rightarrow> p # flush_promises reg
      | _ \<Rightarrow> flush_promises reg)"

definition flush_throws :: "backend \<Rightarrow> bool" where
  "flush_throws l = (case flush_fn l of Some (FlushThrows e) \<Rightarrow> True | _ \<Rightarrow> False)"

subsection \<open>Example instances\<close>

definition quiet_backend :: backend where
  "quiet_backend = \<lparr>class_name = ''QuietLogger'', log_fn = (\<lambda>ev. None), flush_fn = None\<rparr>"

definition failing_backend :: backend where
  "failing_backend =
     \<lparr>class_name = ''FailingLogger'', log_fn = (\<lambda>ev. Some (Error ''boom'')), flush_fn = None\<rparr>"

definition flushing_backend :: "flush_behaviour \<Rightarrow> backend" where
  "flushing_backend f =
     \<lparr>class_name = ''FlushingLogger'', log_fn = (\<lambda>ev. None), flush_fn = Some f\<rparr>"

definition quiet_class :: logger_class where
  "quiet_class cfg = Inr quiet_backend"

definition no_modules :: "string \<Rightarrow> js_error + logger_class" where
  "no_modules module = Inl (Error ''Cannot find module'')"

definition example_facade :: "(string \<times> backend) list \<Rightarrow> logtopus" where
  "example_facade reg =
     \<lparr>conf = config_method empty_config, logLevel = Rank 3, debugMode = False,
      environmentDefault = 6, logger = reg\<rparr>"

definition example_colorfy :: colorfy where
  "example_colorfy =
     \<lparr>cf_text = [Str ''up''],
      cf_render = (\<lambda>colors t. (if colors then CHR 0x1B # ''[32mup'' @ CHR 0x1B # ''[m'' else ''up'', []))\<rparr>"

definition test_environment :: environment where
  "test_environment = \<lparr>NODE_ENV = Some ''test'', LOGTOPUS_DEBUG = None\<rparr>"

definition example_event :: "string \<Rightarrow> string \<Rightarrow> event" where
  "example_event type m =
     \<lparr>ev_type = type, ev_msg = m, ev_cmsg = m, ev_data = [], ev_time = 0, ev_uptime = 0\<rparr>"

section \<open>Facts about the level table\<close>

lemma definedLogLevels_cases:
  "map_of definedLogLevels n = Some r \<Longrightarrow>
     (n, r) \<in> {(''error'', 1), (''warn'', 2), (''sys'', 3), (''req'', 4),
                (''res'', 5), (''info'', 6), (''debug'', 7)}"
  by (simp add: definedLogLevels_def split: if_splits)

lemma definedLogLevels_get_own:
  "map_of definedLogLevels n = Some r \<Longrightarrow> definedLogLevels_get n = Some (Rank r)"
  by (simp add: definedLogLevels_get_def)

lemma definedLogLevels_rank_range:
  "map_of definedLogLevels n = Some r \<Longrightarrow> n \<noteq> [] \<and> 1 \<le> r \<and> r \<le> 7"
  by (drule definedLogLevels_cases) auto

lemma definedLogLevels_get_unknown:
  "map_of definedLogLevels n = None \<Longrightarrow> n \<notin> set object_prototype_keys \<Longrightarrow>
     definedLogLevels_get n = None"
  by (simp add: definedLogLevels_get_def)

lemma definedLogLevels_get_not_own:
  "map_of definedLogLevels n = None \<Longrightarrow>
     definedLogLevels_get n = None \<or> definedLogLevels_get n = Some (Inherited n)"
  by (simp add: definedLogLevels_get_def)

lemma inherited_names_not_own:
  "name \<in> set object_prototype_keys \<Longrightarrow> map_of definedLogLevels name = None \<and> name \<noteq> []"
  unfolding object_prototype_keys_def
  by (simp, elim disjE; simp add: definedLogLevels_def)

lemma setLevel_inherited_name:
  assumes "name \<in> set object_prototype_keys"
  shows "setLevel (Some name) s = (Returns This, s\<lparr>logLevel := Inherited name\<rparr>)"
proof -
  from inherited_names_not_own [OF assms] assms
  have "definedLogLevels_get name = Some (Inherited name)" and "name \<noteq> []"
    by (simp_all add: definedLogLevels_get_def)
  then show ?thesis
    by (simp add: setLevel_def)
qed

lemma getLevel_after:
  "map_of definedLogLevels n = Some r \<Longrightarrow> getLevel (s\<lparr>logLevel := Rank r\<rparr>) = Some n"
  by (drule definedLogLevels_cases) (auto simp: getLevel_def definedLogLevels_def)

lemma getLevel_sound:
  "getLevel s = Some k \<Longrightarrow> \<exists>r. map_of definedLogLevels k = Some r \<and> logLevel s = Rank r"
  by (auto simp: getLevel_def definedLogLevels_def split: if_splits)

lemma setLevel_keeps_environmentDefault:
  "environmentDefault (snd (setLevel level s)) = environmentDefault s"
  by (simp add: setLevel_def split: option.splits)

lemma removeLogger_keeps_environmentDefault:
  "environmentDefault (snd (removeLogger name s)) = environmentDefault s"
  by (simp add: removeLogger_def)

section \<open>Facts about the fan-out\<close>

lemma forEach_log_all:
  "\<forall>(n, l) \<in> set reg. log_fn l ev = None \<Longrightarrow>
     fst (forEach_log dbg ev reg) = Returns Void \<and>
     log_calls (snd (forEach_log dbg ev reg)) = map (\<lambda>(n, l). (n, ev)) reg"
  by (induction reg) (auto split: prod.splits)

lemma forEach_log_throw:
  "\<forall>(n', l') \<in> set pre. log_fn l' ev = None \<Longrightarrow> log_fn l ev = Some e \<Longrightarrow>
     fst (forEach_log dbg ev (pre @ (n, l) # post)) = Throws e \<and>
     log_calls (snd (forEach_log dbg ev (pre @ (n, l) # post)))
       = map (\<lambda>(n, l). (n, ev)) (pre @ [(n, l)])"
  by (induction pre) (auto split: prod.splits)



lemma writeLog_filtered:
  assumes "map_of definedLogLevels type = Some r" and "logLevel s = Rank T" and "T < r"
  shows "writeLog type m args now up s = (Returns This, [])"
proof -
  from definedLogLevels_rank_range [OF assms(1)] have "r \<noteq> 0" by simp
  with assms definedLogLevels_get_own [OF assms(1)] show ?thesis
    by (simp add: writeLog_def)
qed

lemma writeLog_emits:
  assumes "logLevel s = Rank T"
    and "(map_of definedLogLevels type = Some r \<and> r \<le> T)
         \<or> map_of definedLogLevels type = None"
    and "render (default_message m) = Inr (p, c)"
  shows "writeLog type m args now up s =
           forEach_log (debugMode s)
             \<lparr>ev_type = type, ev_msg = p, ev_cmsg = c, ev_data = args,
              ev_time = now, ev_uptime = up\<rparr> (logger s)"
  using assms(2)
proof
  assume a: "map_of definedLogLevels type = Some r \<and> r \<le> T"
  then have "definedLogLevels_get type = Some (Rank r)"
    by (simp add: definedLogLevels_get_own)
  with a assms(1) assms(3) show ?thesis
    by (simp add: writeLog_def)
next
  assume "map_of definedLogLevels type = None"
  from definedLogLevels_get_not_own [OF this] assms(1) assms(3) show ?thesis
    by (auto simp: writeLog_def)
qed

text \<open>The renderings of the three kinds of message \<open>writeLog\<close> is written for: a falsy
  value (an absent message among them), a non-empty string, a \<open>colorfy\<close> object.\<close>

lemma render_absent:
  "\<not> js_truthy v \<Longrightarrow> render (default_message (Val v)) = Inr (''No message'', ''No message'')"
  by simp

lemma render_text:
  "t \<noteq> [] \<Longrightarrow> render (default_message (Val (Str t))) = Inr (strip_escapes t, t)"
  by simp

lemma render_colorfy:
  "render (default_message (Colorfy cf))
     = Inr (fst (cf_render cf False (cf_text cf)), fst (cf_render cf True (cf_text cf)))"
  by simp

lemma render_kinds:
  assumes "(\<not> js_truthy v \<and> m = Val v \<and> p = ''No message'' \<and> c = ''No message'')
           \<or> (t \<noteq> [] \<and> m = Val (Str t) \<and> p = strip_escapes t \<and> c = t)
           \<or> (m = Colorfy cf \<and> p = fst (cf_render cf False (cf_text cf))
               \<and> c = fst (cf_render cf True (cf_text cf)))"
  shows "render (default_message m) = Inr (p, c)"
  using assms render_absent [of v] render_text [of t] render_colorfy [of cf]
  by (elim disjE) simp_all

text \<open>What the facade does once a built-in has become the threshold
  (\<open>setLevel('toString')\<close>): every level of the table passes, and a type that names
  another built-in is filtered by the order of the strings the two convert to.\<close>

lemma writeLog_inherited_threshold:
  "writeLog ''valueOf'' m args now up (s\<lparr>logLevel := Inherited ''toString''\<rparr>)
     = (Returns This, [])"
  by (simp add: writeLog_def definedLogLevels_get_def definedLogLevels_def
        object_prototype_keys_def builtin_text_def)




section \<open>Facts about the registry\<close>









lemma addLogger_duplicate:
  "map_has (logger s) name \<Longrightarrow>
     addLogger name LoggerClass s
       = (if debugMode s then Throws (ReferenceError ''err is not defined'') else Returns This,
          s, [])"
  by (simp add: addLogger_def)

section \<open>Facts about construction\<close>

lemma addLogger_keeps:
  "addLogger n LoggerClass s = (r, s', effs) \<Longrightarrow>
     logLevel s' = logLevel s \<and> environmentDefault s' = environmentDefault s
     \<and> conf s' = conf s \<and> debugMode s' = debugMode s"
  by (auto simp: addLogger_def split: if_splits option.splits sum.splits)

lemma loadLogger_loop_keeps:
  "loadLogger_loop superimport names s = (s', effs) \<Longrightarrow>
     logLevel s' = logLevel s \<and> environmentDefault s' = environmentDefault s
     \<and> conf s' = conf s \<and> debugMode s' = debugMode s"
proof (induction names arbitrary: s s' effs)
  case Nil
  then show ?case by simp
next
  case (Cons loggerName names)
  obtain s1 effs1 where step:
    "(case superimport (''logtopus-'' @ moduleName loggerName @ ''-logger'') of
        Inl e \<Rightarrow> (s, if debugMode s then [Console (LoadFailed loggerName e)] else [])
      | Inr LoggerClass \<Rightarrow>
          (case addLogger loggerName LoggerClass s of
             (Throws e, s1, effs1) \<Rightarrow>
               (s1, effs1 @ (if debugMode s then [Console (LoadFailed loggerName e)] else []))
           | (Returns r, s1, effs1) \<Rightarrow> (s1, effs1))) = (s1, effs1)"
    by (cases "(case superimport (''logtopus-'' @ moduleName loggerName @ ''-logger'') of
        Inl e \<Rightarrow> (s, if debugMode s then [Console (LoadFailed loggerName e)] else [])
      | Inr LoggerClass \<Rightarrow>
          (case addLogger loggerName LoggerClass s of
             (Throws e, s1, effs1) \<Rightarrow>
               (s1, effs1 @ (if debugMode s then [Console (LoadFailed loggerName e)] else []))
           | (Returns r, s1, effs1) \<Rightarrow> (s1, effs1)))") auto
  then have k1: "logLevel s1 = logLevel s \<and> environmentDefault s1 = environmentDefault s
     \<and> conf s1 = conf s \<and> debugMode s1 = debugMode s"
    by (auto split: sum.splits prod.splits outcome.splits dest: addLogger_keeps)
  obtain s2 effs2 where rest: "loadLogger_loop superimport names s1 = (s2, effs2)"
    by (cases "loadLogger_loop superimport names s1") auto
  from Cons.prems step rest have "s' = s2"
    by (simp add: Let_def)
  with Cons.IH [OF rest] k1 show ?case by simp
qed

lemma constructor_returns:
  "\<exists>s effs. constructor env superimport c = (Returns s, effs)
     \<and> logLevel s = (case conf_level (case c of None \<Rightarrow> empty_config | Some c0 \<Rightarrow> c0) of
                       Some n \<Rightarrow> if n \<noteq> 0 then Rank n else Rank 3
                     | None \<Rightarrow> Rank 3)
     \<and> environmentDefault s = environment_default (NODE_ENV env)"
proof -
  let ?c1 = "config_method (case c of None \<Rightarrow> empty_config | Some c0 \<Rightarrow> c0)"
  let ?s = "\<lparr>conf = ?c1,
             logLevel = (case conf_level ?c1 of
                           Some n \<Rightarrow> if n \<noteq> 0 then Rank n else Rank 3
                         | None \<Rightarrow> Rank 3),
             debugMode = (case conf_debugMode ?c1 of
                            Some True \<Rightarrow> True
                          | _ \<Rightarrow> (case LOGTOPUS_DEBUG env of Some v \<Rightarrow> v \<noteq> [] | None \<Rightarrow> False)),
             environmentDefault = environment_default (NODE_ENV env),
             logger = []\<rparr>"
  obtain lc where lc: "conf_logger ?c1 = Some lc"
    by (cases "conf_logger (case c of None \<Rightarrow> empty_config | Some c0 \<Rightarrow> c0)")
       (auto simp: config_method_def)
  obtain s' effs where loop: "loadLogger_loop superimport (object_keys lc) ?s = (s', effs)"
    by (cases "loadLogger_loop superimport (object_keys lc) ?s") auto
  have lvl: "conf_level ?c1 = conf_level (case c of None \<Rightarrow> empty_config | Some c0 \<Rightarrow> c0)"
    by (simp add: config_method_def split: option.splits)
  from lc loop have "constructor env superimport c = (Returns s', effs)"
    by (simp add: constructor_def loadLogger_def Let_def)
  moreover from loadLogger_loop_keeps [OF loop] lvl
  have "logLevel s' = (case conf_level (case c of None \<Rightarrow> empty_config | Some c0 \<Rightarrow> c0) of
                       Some n \<Rightarrow> if n \<noteq> 0 then Rank n else Rank 3
                     | None \<Rightarrow> Rank 3)"
    and "environmentDefault s' = environment_default (NODE_ENV env)"
    by simp_all
  ultimately show ?thesis by blast
qed

section \<open>Facts about the renderings\<close>











lemma no_ESC_no_escape: "CHR 0x1B \<notin> set m \<Longrightarrow> \<not> has_escape m"
proof (induction m)
  case Nil
  show ?case by simp
next
  case (Cons c cs)
  then have "match_escape (c # cs) = None"
    by (cases cs) auto
  with Cons show ?case by simp
qed













section \<open>Facts about flush\<close>

lemma forEach_flush_all:
  "\<forall>(n, l) \<in> set reg. \<not> flush_throws l \<Longrightarrow>
     forEach_flush reg = (Inr (flush_promises reg), map FlushCall (flush_capable reg))"
proof (induction reg)
  case Nil
  show ?case by (simp add: flush_capable_def)
next
  case (Cons a reg)
  obtain n l where a: "a = (n, l)" by (cases a) auto
  from Cons.prems have ih: "forEach_flush reg = (Inr (flush_promises reg), map FlushCall (flush_capable reg))"
    by (intro Cons.IH) simp
  from Cons.prems a have "\<not> flush_throws l" by simp
  with ih a show ?case
    by (cases "flush_fn l")
       (auto simp: flush_capable_def flush_throws_def split: flush_behaviour.splits)
qed

lemma forEach_flush_throw:
  "\<forall>(n', l') \<in> set pre. \<not> flush_throws l' \<Longrightarrow> flush_fn l = Some (FlushThrows e) \<Longrightarrow>
     forEach_flush (pre @ (n, l) # post) = (Inl e, map FlushCall (flush_capable pre) @ [FlushCall n])"
proof (induction pre)
  case Nil
  then show ?case by (simp add: flush_capable_def)
next
  case (Cons a pre)
  obtain n' l' where a: "a = (n', l')" by (cases a) auto
  from Cons have ih: "forEach_flush (pre @ (n, l) # post)
      = (Inl e, map FlushCall (flush_capable pre) @ [FlushCall n])"
    by simp
  from Cons.prems a have "\<not> flush_throws l'" by simp
  with ih a show ?case
    by (cases "flush_fn l'")
       (auto simp: flush_capable_def flush_throws_def split: flush_behaviour.splits)
qed

lemma Promise_all_Fulfilled: "Promise_all ps = Fulfilled \<longleftrightarrow> (\<forall>p \<in> set ps. p = Fulfilled)"
proof
  assume "Promise_all ps = Fulfilled"
  then have "Rejected \<notin> set ps" "Pending \<notin> set ps"
    by (auto simp: Promise_all_def split: if_splits)
  then show "\<forall>p \<in> set ps. p = Fulfilled"
    by (metis promise.exhaust)
next
  assume "\<forall>p \<in> set ps. p = Fulfilled"
  then show "Promise_all ps = Fulfilled"
    by (auto simp: Promise_all_def)
qed

lemma Promise_all_Rejected: "Promise_all ps = Rejected \<longleftrightarrow> Rejected \<in> set ps"
  by (simp add: Promise_all_def)

section \<open>Level filtering of the dispatch\<close>

text \<open>
  Claim C1, as the code has it, for a numeric threshold \<open>T\<close>. For a level name of the table
  with rank \<open>r\<close>: when \<open>T < r\<close>, \<open>writeLog\<close> returns \<open>this\<close> at once, with no effect at all
  (no backend invoked, no event built). When \<open>r \<le> T\<close>, and likewise for every type name
  that is not in the table, \<open>writeLog\<close> invokes \<open>log\<close> on every registered backend, in
  registry order and with one and the same event, provided the message renders and no
  backend's \<open>log\<close> throws on that event. The event carries the placeholder
  \<open>No message\<close> twice for a falsy message, the stripped string and the string for a
  non-empty string, and the two renderings of a \<open>colorfy\<close> object.
\<close>

theorem writeLog_threshold:
  assumes "logLevel s = Rank T"
  shows "(map_of definedLogLevels type = Some r \<and> T < r \<longrightarrow>
            writeLog type m args now up s = (Returns This, []))
   \<and> (((map_of definedLogLevels type = Some r \<and> r \<le> T)
         \<or> map_of definedLogLevels type = None)
       \<and> ((\<not> js_truthy v \<and> m = Val v \<and> p = ''No message'' \<and> c = ''No message'')
           \<or> (t \<noteq> [] \<and> m = Val (Str t) \<and> p = strip_escapes t \<and> c = t)
           \<or> (m = Colorfy cf \<and> p = fst (cf_render cf False (cf_text cf))
               \<and> c = fst (cf_render cf True (cf_text cf))))
       \<and> (\<forall>(n, l) \<in> set (logger s).
             log_fn l \<lparr>ev_type = type, ev_msg = p, ev_cmsg = c, ev_data = args,
                       ev_time = now, ev_uptime = up\<rparr> = None)
      \<longrightarrow> fst (writeLog type m args now up s) = Returns Void
          \<and> log_calls (snd (writeLog type m args now up s))
              = map (\<lambda>(n, l). (n, \<lparr>ev_type = type, ev_msg = p, ev_cmsg = c, ev_data = args,
                                     ev_time = now, ev_uptime = up\<rparr>)) (logger s))"
proof (intro conjI impI)
  assume "map_of definedLogLevels type = Some r \<and> T < r"
  with assms show "writeLog type m args now up s = (Returns This, [])"
    by (simp add: writeLog_filtered)
next
  let ?ev = "\<lparr>ev_type = type, ev_msg = p, ev_cmsg = c, ev_data = args,
              ev_time = now, ev_uptime = up\<rparr>"
  assume a: "((map_of definedLogLevels type = Some r \<and> r \<le> T)
         \<or> map_of definedLogLevels type = None)
       \<and> ((\<not> js_truthy v \<and> m = Val v \<and> p = ''No message'' \<and> c = ''No message'')
           \<or> (t \<noteq> [] \<and> m = Val (Str t) \<and> p = strip_escapes t \<and> c = t)
           \<or> (m = Colorfy cf \<and> p = fst (cf_render cf False (cf_text cf))
               \<and> c = fst (cf_render cf True (cf_text cf))))
       \<and> (\<forall>(n, l) \<in> set (logger s). log_fn l ?ev = None)"
  then have r: "render (default_message m) = Inr (p, c)"
    by (intro render_kinds [of v m p c t cf]) simp
  from a have lv: "(map_of definedLogLevels type = Some r \<and> r \<le> T)
         \<or> map_of definedLogLevels type = None"
    by simp
  from writeLog_emits [OF assms lv r]
  have w: "writeLog type m args now up s = forEach_log (debugMode s) ?ev (logger s)" .
  from a have "\<forall>(n, l) \<in> set (logger s). log_fn l ?ev = None" by simp
  from forEach_log_all [OF this, of "debugMode s"] w
  show "fst (writeLog type m args now up s) = Returns Void"
    and "log_calls (snd (writeLog type m args now up s)) = map (\<lambda>(n, l). (n, ?ev)) (logger s)"
    by simp_all
qed

theorem writeLog_threshold_witness:
  "logLevel (example_facade [(''console'', quiet_backend), (''file'', quiet_backend)]) = Rank 3
   \<and> map_of definedLogLevels ''debug'' = Some 7
   \<and> (3::int) < 7
   \<and> writeLog ''debug'' (Val (Str ''y'')) [] 0 0
        (example_facade [(''console'', quiet_backend), (''file'', quiet_backend)])
       = (Returns This, [])
   \<and> map_of definedLogLevels ''error'' = Some 1
   \<and> (1::int) \<le> 3
   \<and> strip_escapes ''y'' = ''y''
   \<and> log_fn quiet_backend (example_event ''error'' ''y'') = None
   \<and> fst (writeLog ''error'' (Val (Str ''y'')) [] 0 0
        (example_facade [(''console'', quiet_backend), (''file'', quiet_backend)])) = Returns Void
   \<and> log_calls (snd (writeLog ''error'' (Val (Str ''y'')) [] 0 0
        (example_facade [(''console'', quiet_backend), (''file'', quiet_backend)])))
       = [(''console'', example_event ''error'' ''y''), (''file'', example_event ''error'' ''y'')]
   \<and> map_of definedLogLevels ''audit'' = None
   \<and> \<not> js_truthy Undefined
   \<and> log_calls (snd (writeLog ''audit'' (Val Undefined) [] 0 0
        (example_facade [(''console'', quiet_backend), (''file'', quiet_backend)])))
       = [(''console'', example_event ''audit'' ''No message''),
          (''file'', example_event ''audit'' ''No message'')]"
proof -
  let ?s = "example_facade [(''console'', quiet_backend), (''file'', quiet_backend)]"
  have l: "logLevel ?s = Rank 3" by (simp add: example_facade_def)
  from writeLog_threshold [OF l, where type = "''debug''" and r = 7 and m = "Val (Str ''y'')"
         and args = "[]" and now = 0 and up = 0 and v = Undefined and t = "''y''"
         and p = "''y''" and c = "''y''" and cf = example_colorfy]
       writeLog_threshold [OF l, where type = "''error''" and r = 1 and m = "Val (Str ''y'')"
         and args = "[]" and now = 0 and up = 0 and v = Undefined and t = "''y''"
         and p = "''y''" and c = "''y''" and cf = example_colorfy]
       writeLog_threshold [OF l, where type = "''audit''" and r = 0 and m = "Val Undefined"
         and args = "[]" and now = 0 and up = 0 and v = Undefined and t = "''y''"
         and p = "''No message''" and c = "''No message''" and cf = example_colorfy]
       l
  show ?thesis
    by (simp add: definedLogLevels_def example_facade_def quiet_backend_def example_event_def)
qed

text \<open>
  Without the proviso the claim fails: rank 1 passes the threshold 3, the first backend
  throws, and the second backend is never invoked.
\<close>

theorem writeLog_threshold_counterexample:
  "map_of definedLogLevels ''error'' = Some 1
   \<and> logLevel (example_facade [(''console'', failing_backend), (''file'', quiet_backend)]) = Rank 3
   \<and> writeLog ''error'' (Val (Str ''y'')) [] 0 0
        (example_facade [(''console'', failing_backend), (''file'', quiet_backend)])
       = (Throws (Error ''boom''), [LogCall ''console'' (example_event ''error'' ''y'')])"
  by (simp add: definedLogLevels_def example_facade_def writeLog_def definedLogLevels_get_def
        failing_backend_def quiet_backend_def example_event_def)

section \<open>A backend that throws during the fan-out\<close>

text \<open>
  Claim C3, as the code has it. When the event passes the filter of a numeric threshold
  (a level of the table with a rank up to the threshold, or a type that is not in the
  table), the message renders, and the backend registered under \<open>n\<close> is the first whose
  \<open>log\<close> throws, then the backends before it and \<open>n\<close> itself have been invoked with the
  event, no backend after \<open>n\<close> is invoked, and the exception leaves \<open>writeLog\<close> and the
  convenience method that called it (\<open>debug\<close>, \<open>info\<close>, \<open>res\<close>, \<open>req\<close>, \<open>sys\<close>, \<open>warn\<close>,
  \<open>error\<close> are \<open>log_as\<close> at their name).
\<close>

theorem fan_out_stops_at_exception:
  assumes "logger s = pre @ (n, l) # post"
    and "ev = \<lparr>ev_type = type, ev_msg = p, ev_cmsg = c, ev_data = args,
               ev_time = now, ev_uptime = up\<rparr>"
    and "\<forall>(n', l') \<in> set pre. log_fn l' ev = None"
    and "log_fn l ev = Some e"
    and "logLevel s = Rank T"
    and "(map_of definedLogLevels type = Some r \<and> r \<le> T)
         \<or> map_of definedLogLevels type = None"
    and "(\<not> js_truthy v \<and> m = Val v \<and> p = ''No message'' \<and> c = ''No message'')
           \<or> (t \<noteq> [] \<and> m = Val (Str t) \<and> p = strip_escapes t \<and> c = t)
           \<or> (m = Colorfy cf \<and> p = fst (cf_render cf False (cf_text cf))
               \<and> c = fst (cf_render cf True (cf_text cf)))"
  shows "fst (writeLog type m args now up s) = Throws e
         \<and> log_calls (snd (writeLog type m args now up s)) = map (\<lambda>(n, l). (n, ev)) (pre @ [(n, l)])
         \<and> log_as type m args now up s = (Throws e, snd (writeLog type m args now up s))"
proof -
  from render_kinds [OF assms(7)] have r: "render (default_message m) = Inr (p, c)" .
  from writeLog_emits [OF assms(5) assms(6) r] assms(1) assms(2)
  have w: "writeLog type m args now up s = forEach_log (debugMode s) ev (pre @ (n, l) # post)"
    by simp
  from forEach_log_throw [OF assms(3) assms(4), of "debugMode s" n post] w
  have f: "fst (writeLog type m args now up s) = Throws e"
    and c: "log_calls (snd (writeLog type m args now up s)) = map (\<lambda>(n, l). (n, ev)) (pre @ [(n, l)])"
    by simp_all
  from f have "log_as type m args now up s = (Throws e, snd (writeLog type m args now up s))"
    by (cases "writeLog type m args now up s") (simp add: log_as_def)
  with f c show ?thesis by simp
qed

theorem fan_out_stops_at_exception_witness:
  "logger (example_facade [(''console'', quiet_backend), (''file'', failing_backend),
                           (''syslog'', quiet_backend)])
     = [(''console'', quiet_backend)] @ (''file'', failing_backend) # [(''syslog'', quiet_backend)]
   \<and> log_fn quiet_backend (example_event ''warn'' ''disk full'') = None
   \<and> log_fn failing_backend (example_event ''warn'' ''disk full'') = Some (Error ''boom'')
   \<and> logLevel (example_facade [(''console'', quiet_backend), (''file'', failing_backend),
                           (''syslog'', quiet_backend)]) = Rank 3
   \<and> map_of definedLogLevels ''warn'' = Some 2
   \<and> (2::int) \<le> 3
   \<and> strip_escapes ''disk full'' = ''disk full''
   \<and> fst (writeLog ''warn'' (Val (Str ''disk full'')) [] 0 0
        (example_facade [(''console'', quiet_backend), (''file'', failing_backend),
                         (''syslog'', quiet_backend)])) = Throws (Error ''boom'')
   \<and> log_calls (snd (writeLog ''warn'' (Val (Str ''disk full'')) [] 0 0
        (example_facade [(''console'', quiet_backend), (''file'', failing_backend),
                         (''syslog'', quiet_backend)])))
       = [(''console'', example_event ''warn'' ''disk full''),
          (''file'', example_event ''warn'' ''disk full'')]
   \<and> fst (warn (Val (Str ''disk full'')) [] 0 0
        (example_facade [(''console'', quiet_backend), (''file'', failing_backend),
                         (''syslog'', quiet_backend)])) = Throws (Error ''boom'')"
proof -
  let ?s = "example_facade [(''console'', quiet_backend), (''file'', failing_backend),
                            (''syslog'', quiet_backend)]"
  have h1: "logger ?s = [(''console'', quiet_backend)] @ (''file'', failing_backend)
              # [(''syslog'', quiet_backend)]"
    by (simp add: example_facade_def)
  have h2: "example_event ''warn'' ''disk full''
              = \<lparr>ev_type = ''warn'', ev_msg = ''disk full'', ev_cmsg = ''disk full'',
                 ev_data = [], ev_time = 0, ev_uptime = 0\<rparr>"
    by (simp add: example_event_def)
  have h3: "\<forall>(n', l') \<in> set [(''console'', quiet_backend)].
              log_fn l' (example_event ''warn'' ''disk full'') = None"
    by (simp add: quiet_backend_def)
  have h4: "log_fn failing_backend (example_event ''warn'' ''disk full'') = Some (Error ''boom'')"
    by (simp add: failing_backend_def)
  have h5: "logLevel ?s = Rank 3"
    by (simp add: example_facade_def)
  have h6: "(map_of definedLogLevels ''warn'' = Some 2 \<and> (2::int) \<le> 3)
            \<or> map_of definedLogLevels ''warn'' = None"
    by (simp add: definedLogLevels_def)
  have h7: "(\<not> js_truthy Undefined \<and> Val (Str ''disk full'') = Val Undefined
               \<and> ''disk full'' = ''No message'' \<and> ''disk full'' = ''No message'')
           \<or> (''disk full'' \<noteq> [] \<and> Val (Str ''disk full'') = Val (Str ''disk full'')
               \<and> ''disk full'' = strip_escapes ''disk full'' \<and> ''disk full'' = ''disk full'')
           \<or> (Val (Str ''disk full'') = Colorfy example_colorfy
               \<and> ''disk full'' = fst (cf_render example_colorfy False (cf_text example_colorfy))
               \<and> ''disk full'' = fst (cf_render example_colorfy True (cf_text example_colorfy)))"
    by simp
  from fan_out_stops_at_exception [OF h1 h2 h3 h4 h5 h6 h7] h1 h4 h5 h6 show ?thesis
    by (simp add: warn_def quiet_backend_def definedLogLevels_def example_facade_def)
qed

text \<open>
  The claim itself fails: \<open>error('y')\<close> on a registry whose first backend throws ends with
  that exception at the caller, and the second backend has not received the event.
\<close>

theorem isolation_counterexample:
  "error (Val (Str ''y'')) [] 0 0
     (example_facade [(''console'', failing_backend), (''file'', quiet_backend)])
   = (Throws (Error ''boom''), [LogCall ''console'' (example_event ''error'' ''y'')])"
  by (simp add: error_def log_as_def definedLogLevels_def example_facade_def writeLog_def
        definedLogLevels_get_def failing_backend_def quiet_backend_def example_event_def)

section \<open>Removing a backend\<close>




section \<open>Setting and reading the threshold\<close>

text \<open>
  Claim C2, as the code has it. For every name of the level table, \<open>setLevel(name)\<close> sets
  the threshold to the rank of the name. For every non-empty name that is neither in the
  table nor a property name inherited from \<open>Object.prototype\<close>, \<open>setLevel(name)\<close> throws
  \<open>Error('Invalid log level argument!')\<close> and the facade is as before the call. The empty
  string is falsy: \<open>setLevel('')\<close> does what \<open>setLevel()\<close> does and sets the environment
  default.
\<close>

theorem setLevel_table_or_invalid:
  "(map_of definedLogLevels name = Some r \<longrightarrow>
      setLevel (Some name) s = (Returns This, s\<lparr>logLevel := Rank r\<rparr>))
   \<and> (name \<noteq> [] \<and> map_of definedLogLevels name = None \<and> name \<notin> set object_prototype_keys \<longrightarrow>
      setLevel (Some name) s = (Throws (Error ''Invalid log level argument!''), s))
   \<and> setLevel (Some []) s = (Returns This, s\<lparr>logLevel := Rank (environmentDefault s)\<rparr>)"
proof (intro conjI impI)
  assume a: "map_of definedLogLevels name = Some r"
  from definedLogLevels_rank_range [OF a] have "name \<noteq> []" "r \<noteq> 0" by auto
  with definedLogLevels_get_own [OF a]
  show "setLevel (Some name) s = (Returns This, s\<lparr>logLevel := Rank r\<rparr>)"
    by (simp add: setLevel_def)
next
  assume "name \<noteq> [] \<and> map_of definedLogLevels name = None \<and> name \<notin> set object_prototype_keys"
  then show "setLevel (Some name) s = (Throws (Error ''Invalid log level argument!''), s)"
    by (simp add: setLevel_def definedLogLevels_get_unknown)
next
  show "setLevel (Some []) s = (Returns This, s\<lparr>logLevel := Rank (environmentDefault s)\<rparr>)"
    by (simp add: setLevel_def)
qed

theorem setLevel_table_or_invalid_witness:
  "map_of definedLogLevels ''info'' = Some 6
   \<and> setLevel (Some ''info'') (example_facade []) = (Returns This, (example_facade [])\<lparr>logLevel := Rank 6\<rparr>)
   \<and> ''verbose'' \<noteq> []
   \<and> map_of definedLogLevels ''verbose'' = None
   \<and> ''verbose'' \<notin> set object_prototype_keys
   \<and> setLevel (Some ''verbose'') (example_facade [])
       = (Throws (Error ''Invalid log level argument!''), example_facade [])"
  using setLevel_table_or_invalid [of "''info''" 6 "example_facade []"]
    setLevel_table_or_invalid [of "''verbose''" 0 "example_facade []"]
  by (simp add: definedLogLevels_def object_prototype_keys_def)

text \<open>
  The claim fails at the empty name, which is supplied and not in the table: no error,
  and the threshold moves from 3 to the environment default 6.
\<close>

theorem setLevel_empty_name_counterexample:
  "map_of definedLogLevels '''' = None
   \<and> logLevel (example_facade []) = Rank 3
   \<and> setLevel (Some '''') (example_facade [])
       = (Returns This, (example_facade [])\<lparr>logLevel := Rank 6\<rparr>)"
  by (simp add: definedLogLevels_def setLevel_def example_facade_def)

text \<open>
  Claim C5. On an instance constructed under the environment \<open>env\<close>, in whatever state it
  is later (no method assigns \<open>__environmentDefault\<close>), \<open>setLevel()\<close> sets the threshold to
  3 for \<open>production\<close>, 5 for \<open>staging\<close> and \<open>qa\<close>, 1 for \<open>test\<close> and 6 for any other or
  absent \<open>NODE_ENV\<close>, whatever the threshold was.
\<close>

theorem setLevel_without_argument:
  assumes "constructor env superimport c = (Returns s0, effs)"
    and "environmentDefault s = environmentDefault s0"
  shows "setLevel None s =
           (Returns This,
            s\<lparr>logLevel := Rank (if NODE_ENV env = Some ''production'' then 3
                                else if NODE_ENV env = Some ''staging'' then 5
                                else if NODE_ENV env = Some ''qa'' then 5
                                else if NODE_ENV env = Some ''test'' then 1
                                else 6)\<rparr>)"
proof -
  from constructor_returns [of env superimport c] assms(1)
  have "environmentDefault s0 = environment_default (NODE_ENV env)"
    by auto
  with assms(2) show ?thesis
    by (simp add: setLevel_def environment_default_def)
qed

lemma constructor_example:
  "constructor test_environment no_modules None = (Returns ((example_facade [])\<lparr>environmentDefault := 1\<rparr>), [])"
  by (simp add: constructor_def loadLogger_def test_environment_def no_modules_def
        example_facade_def config_method_def empty_config_def default_logger_config_def
        environment_default_def object_keys_def is_array_index_def is_digit_def Let_def)

theorem setLevel_without_argument_witness:
  "constructor test_environment no_modules None
     = (Returns ((example_facade [])\<lparr>environmentDefault := 1\<rparr>), [])
   \<and> environmentDefault ((example_facade [])\<lparr>environmentDefault := 1, logLevel := Rank 7\<rparr>)
       = environmentDefault ((example_facade [])\<lparr>environmentDefault := 1\<rparr>)
   \<and> setLevel None ((example_facade [])\<lparr>environmentDefault := 1, logLevel := Rank 7\<rparr>)
       = (Returns This, (example_facade [])\<lparr>environmentDefault := 1, logLevel := Rank 1\<rparr>)"
proof -
  have h1: "constructor test_environment no_modules None
              = (Returns ((example_facade [])\<lparr>environmentDefault := 1\<rparr>), [])"
    by (rule constructor_example)
  have h2: "environmentDefault ((example_facade [])\<lparr>environmentDefault := 1, logLevel := Rank 7\<rparr>)
              = environmentDefault ((example_facade [])\<lparr>environmentDefault := 1\<rparr>)"
    by simp
  from setLevel_without_argument [OF h1 h2] h1 h2 show ?thesis
    by (simp add: test_environment_def)
qed

text \<open>
  Claim C9. For every name \<open>n\<close> of the level table, \<open>getLevel()\<close> after \<open>setLevel(n)\<close>
  returns \<open>n\<close>. Whatever name \<open>getLevel\<close> returns has the threshold as its rank, and the
  table pairs seven distinct names with the seven distinct ranks 1 to 7.
\<close>

theorem setLevel_getLevel_round_trip:
  "(map_of definedLogLevels n = Some r \<longrightarrow>
      fst (setLevel (Some n) s) = Returns This \<and> getLevel (snd (setLevel (Some n) s)) = Some n)
   \<and> (getLevel s = Some k \<longrightarrow> (\<exists>r'. map_of definedLogLevels k = Some r' \<and> logLevel s = Rank r'))
   \<and> length definedLogLevels = 7
   \<and> distinct (map fst definedLogLevels)
   \<and> distinct (map snd definedLogLevels)
   \<and> set (map snd definedLogLevels) = {1..7}"
proof (intro conjI impI)
  assume a: "map_of definedLogLevels n = Some r"
  from definedLogLevels_rank_range [OF a] definedLogLevels_get_own [OF a]
  have s: "setLevel (Some n) s = (Returns This, s\<lparr>logLevel := Rank r\<rparr>)"
    by (simp add: setLevel_def)
  then show "fst (setLevel (Some n) s) = Returns This" by simp
  from s getLevel_after [OF a] show "getLevel (snd (setLevel (Some n) s)) = Some n" by simp
next
  assume "getLevel s = Some k"
  then show "\<exists>r'. map_of definedLogLevels k = Some r' \<and> logLevel s = Rank r'"
    by (rule getLevel_sound)
next
  show "length definedLogLevels = 7" by (simp add: definedLogLevels_def)
  show "distinct (map fst definedLogLevels)" by (simp add: definedLogLevels_def)
  show "distinct (map snd definedLogLevels)" by (simp add: definedLogLevels_def)
  show "set (map snd definedLogLevels) = {1..7}" by (auto simp: definedLogLevels_def)
qed

theorem setLevel_getLevel_round_trip_witness:
  "map_of definedLogLevels ''req'' = Some 4
   \<and> fst (setLevel (Some ''req'') (example_facade [])) = Returns This
   \<and> getLevel (snd (setLevel (Some ''req'') (example_facade []))) = Some ''req''
   \<and> getLevel (example_facade []) = Some ''sys''
   \<and> map_of definedLogLevels ''sys'' = Some 3
   \<and> logLevel (example_facade []) = Rank 3"
proof -
  have h1: "map_of definedLogLevels ''req'' = Some 4"
    by (simp add: definedLogLevels_def)
  have h2: "getLevel (example_facade []) = Some ''sys''"
    by (simp add: getLevel_def definedLogLevels_def example_facade_def)
  from setLevel_getLevel_round_trip [of "''req''" 4 "example_facade []" "''sys''"] h1 h2
  show ?thesis by (simp add: definedLogLevels_def example_facade_def)
qed

section \<open>The threshold after construction\<close>



section \<open>Adding a backend twice\<close>

text \<open>
  Claim C4 at the failing input: diagnostics mode on, \<open>x\<close> registered, \<open>addLogger('x', ...)\<close>
  again. The registry is unchanged and nothing is constructed, but the call throws a
  \<open>ReferenceError\<close>, because the diagnostics line reads the undeclared \<open>err\<close>.
\<close>

theorem addLogger_duplicate_diagnostics:
  "addLogger ''x'' quiet_class ((example_facade [(''x'', failing_backend)])\<lparr>debugMode := True\<rparr>)
     = (Throws (ReferenceError ''err is not defined''),
        (example_facade [(''x'', failing_backend)])\<lparr>debugMode := True\<rparr>, [])"
  by (simp add: addLogger_def map_has_def example_facade_def)

section \<open>The two renderings of a message\<close>



section \<open>Flushing the backends\<close>

text \<open>
  Claim C7, as the code has it. When no backend's \<open>flush()\<close> throws synchronously,
  \<open>flush\<close> invokes \<open>flush()\<close> on exactly the registered backends that have the method, in
  registry order, and returns \<open>Promise.all\<close> of their promises: fulfilled exactly when
  all of them are fulfilled, rejected exactly when one of them is rejected, whether or not
  the others have settled. When a backend's \<open>flush()\<close> throws synchronously, \<open>flush\<close>
  throws that exception and the backends behind it are not flushed.
\<close>

theorem flush_fan_out:
  "((\<forall>(n, l) \<in> set (logger s). \<not> flush_throws l) \<longrightarrow>
      flush s = (Returns (Promise_all (flush_promises (logger s))),
                 map FlushCall (flush_capable (logger s)))
      \<and> (Promise_all (flush_promises (logger s)) = Fulfilled
           \<longleftrightarrow> (\<forall>p \<in> set (flush_promises (logger s)). p = Fulfilled))
      \<and> (Promise_all (flush_promises (logger s)) = Rejected
           \<longleftrightarrow> Rejected \<in> set (flush_promises (logger s))))
   \<and> (logger s = pre @ (n, l) # post \<and> (\<forall>(n', l') \<in> set pre. \<not> flush_throws l')
        \<and> flush_fn l = Some (FlushThrows e) \<longrightarrow>
      flush s = (Throws e, map FlushCall (flush_capable pre) @ [FlushCall n]))"
proof (intro conjI impI)
  assume "\<forall>(n, l) \<in> set (logger s). \<not> flush_throws l"
  from forEach_flush_all [OF this]
  show "flush s = (Returns (Promise_all (flush_promises (logger s))),
                 map FlushCall (flush_capable (logger s)))"
    by (simp add: flush_def)
next
  show "Promise_all (flush_promises (logger s)) = Fulfilled
           \<longleftrightarrow> (\<forall>p \<in> set (flush_promises (logger s)). p = Fulfilled)"
    by (rule Promise_all_Fulfilled)
next
  show "Promise_all (flush_promises (logger s)) = Rejected
           \<longleftrightarrow> Rejected \<in> set (flush_promises (logger s))"
    by (rule Promise_all_Rejected)
next
  assume a: "logger s = pre @ (n, l) # post \<and> (\<forall>(n', l') \<in> set pre. \<not> flush_throws l')
        \<and> flush_fn l = Some (FlushThrows e)"
  then have "forEach_flush (pre @ (n, l) # post)
      = (Inl e, map FlushCall (flush_capable pre) @ [FlushCall n])"
    by (intro forEach_flush_throw) auto
  with a show "flush s = (Throws e, map FlushCall (flush_capable pre) @ [FlushCall n])"
    by (simp add: flush_def)
qed

theorem flush_fan_out_witness:
  "\<not> flush_throws quiet_backend
   \<and> \<not> flush_throws (flushing_backend (FlushReturns Fulfilled))
   \<and> \<not> flush_throws (flushing_backend (FlushReturns Rejected))
   \<and> flush (example_facade [(''console'', quiet_backend),
                             (''file'', flushing_backend (FlushReturns Fulfilled)),
                             (''syslog'', flushing_backend (FlushReturns Fulfilled))])
       = (Returns Fulfilled, [FlushCall ''file'', FlushCall ''syslog''])
   \<and> flush (example_facade [(''console'', flushing_backend (FlushReturns Fulfilled)),
                             (''file'', flushing_backend (FlushReturns Rejected))])
       = (Returns Rejected, [FlushCall ''console'', FlushCall ''file''])
   \<and> flush_fn (flushing_backend (FlushThrows (Error ''disk''))) = Some (FlushThrows (Error ''disk''))
   \<and> flush (example_facade [(''console'', flushing_backend (FlushReturns Fulfilled)),
                             (''file'', flushing_backend (FlushThrows (Error ''disk''))),
                             (''syslog'', flushing_backend (FlushReturns Fulfilled))])
       = (Throws (Error ''disk''), [FlushCall ''console'', FlushCall ''file''])"
  using
    flush_fan_out [of "example_facade [(''console'', quiet_backend),
                             (''file'', flushing_backend (FlushReturns Fulfilled)),
                             (''syslog'', flushing_backend (FlushReturns Fulfilled))]"
                      "[]" "''none''" quiet_backend "[]" "Error ''none''"]
    flush_fan_out [of "example_facade [(''console'', flushing_backend (FlushReturns Fulfilled)),
                             (''file'', flushing_backend (FlushReturns Rejected))]"
                      "[]" "''none''" quiet_backend "[]" "Error ''none''"]
    flush_fan_out [of "example_facade [(''console'', flushing_backend (FlushReturns Fulfilled)),
                             (''file'', flushing_backend (FlushThrows (Error ''disk''))),
                             (''syslog'', flushing_backend (FlushReturns Fulfilled))]"
                      "[(''console'', flushing_backend (FlushReturns Fulfilled))]"
                      "''file''" "flushing_backend (FlushThrows (Error ''disk''))"
                      "[(''syslog'', flushing_backend (FlushReturns Fulfilled))]" "Error ''disk''"]
  by (simp add: example_facade_def flush_throws_def quiet_backend_def flushing_backend_def
        flush_capable_def Promise_all_def)

text \<open>
  The claim fails twice. With a rejected and a still pending flush the result of \<open>flush\<close>
  is settled (rejected) before every invoked flush has completed. With a first backend
  whose \<open>flush()\<close> throws, the second backend, which has the method, is not flushed.
\<close>

theorem flush_counterexample:
  "flush (example_facade [(''console'', flushing_backend (FlushReturns Rejected)),
                           (''file'', flushing_backend (FlushReturns Pending))])
     = (Returns Rejected, [FlushCall ''console'', FlushCall ''file''])
   \<and> flush (example_facade [(''console'', flushing_backend (FlushThrows (Error ''disk''))),
                             (''file'', flushing_backend (FlushReturns Fulfilled))])
     = (Throws (Error ''disk''), [FlushCall ''console''])"
  by (simp add: flush_def example_facade_def flushing_backend_def Promise_all_def)

end
